theory Spec2Isabelle
  imports Main
begin

section \<open>Uniform-buffer layout of shader parameters (src/components/ShaderParams.tsx)\<close>

subsection \<open>Data model\<close>

text \<open>
  A \<open>ShaderParam\<close> is the object the two functions receive: they read its fields \<open>id\<close>,
  \<open>type\<close> and \<open>value\<close> only. The type tag is the string the code compares with
  \<open>'float'\<close>, \<open>'color'\<close> and \<open>'vec3'\<close>; any other string is possible at run time. The
  value is kept abstract (\<open>'v\<close>): the code never computes with it, it only stores it, or
  one of its components, into the \<open>Float32Array\<close>.

  A \<open>UniformLayout\<close> is the returned object \<open>{ size, offsetMap }\<close>; the
  \<open>Record<string, number>\<close> is a map from ids to byte offsets, an id being an ordinary
  property key (the inherited accessor \<open>__proto__\<close> of JavaScript objects is not
  modelled). Byte offsets are JavaScript numbers holding integers, modelled as \<open>int\<close>
  (exact in the safe-integer range); \<open>startOffset\<close> is passed explicitly, its default
  being 0.
\<close>

record 'v ShaderParam =
  param_id :: string
  param_type :: string
  param_value :: 'v

record UniformLayout =
  layout_size :: int
  offsetMap :: "string \<rightharpoonup> int"

subsection \<open>Arithmetic of the source\<close>

text \<open>JavaScript's \<open>%\<close> on integers: the remainder takes the sign of the dividend.\<close>

definition js_rem :: "int \<Rightarrow> int \<Rightarrow> int" where
  "js_rem a b = sgn a * (\<bar>a\<bar> mod \<bar>b\<bar>)"

text \<open>Lines 11-17: alignment and size are 4, or 16 for \<open>'color'\<close> and \<open>'vec3'\<close>.\<close>

definition param_alignment :: "'v ShaderParam \<Rightarrow> int" where
  "param_alignment param =
     (if param_type param = ''color'' \<or> param_type param = ''vec3'' then 16 else 4)"

definition param_size :: "'v ShaderParam \<Rightarrow> int" where
  "param_size param =
     (if param_type param = ''color'' \<or> param_type param = ''vec3'' then 16 else 4)"

text \<open>Lines 19 and 25: \<open>(alignment - (currentOffset % alignment)) % alignment\<close>.\<close>

definition padding :: "int \<Rightarrow> int \<Rightarrow> int" where
  "padding alignment currentOffset =
     js_rem (alignment - js_rem currentOffset alignment) alignment"

subsection \<open>calculateUniformLayout\<close>

text \<open>
  The body of \<open>params.forEach\<close> (lines 10-23) on the loop state
  \<open>(currentOffset, offsetMap)\<close>.
\<close>

definition layout_step ::
  "int \<times> (string \<rightharpoonup> int) \<Rightarrow> 'v ShaderParam \<Rightarrow> int \<times> (string \<rightharpoonup> int)" where
  "layout_step st param =
     (case st of (currentOffset, m) \<Rightarrow>
        let alignment = param_alignment param;
            sz = param_size param;
            pad = padding alignment currentOffset;
            placed = currentOffset + pad
        in (placed + sz, m(param_id param \<mapsto> placed)))"

definition calculateUniformLayout :: "'v ShaderParam list \<Rightarrow> int \<Rightarrow> UniformLayout" where
  "calculateUniformLayout params startOffset =
     (case foldl layout_step (startOffset, Map.empty) params of
        (currentOffset, m) \<Rightarrow>
          let totalPadding = padding 16 currentOffset;
              totalSize = currentOffset + totalPadding
          in \<lparr>layout_size = totalSize, offsetMap = m\<rparr>)"

text \<open>
  The successive values that line 21 stores (\<open>offsetMap[param.id] = currentOffset\<close>), one
  per parameter in list order: the same loop body as \<open>layout_step\<close>, keeping the value
  stored instead of the map. With duplicate ids the map keeps only the last of them.
  Lemma \<open>foldl_layout_step\<close> below ties both this list and \<open>final_cursor\<close> to the loop
  of \<open>calculateUniformLayout\<close>.
\<close>

fun assigned_offsets :: "int \<Rightarrow> 'v ShaderParam list \<Rightarrow> int list" where
  "assigned_offsets currentOffset [] = []"
| "assigned_offsets currentOffset (param # rest) =
     (let placed = currentOffset + padding (param_alignment param) currentOffset
      in placed # assigned_offsets (placed + param_size param) rest)"

text \<open>The value of \<open>currentOffset\<close> when the loop ends (read at line 25).\<close>

fun final_cursor :: "int \<Rightarrow> 'v ShaderParam list \<Rightarrow> int" where
  "final_cursor currentOffset [] = currentOffset"
| "final_cursor currentOffset (param # rest) =
     (let placed = currentOffset + padding (param_alignment param) currentOffset
      in final_cursor (placed + param_size param) rest)"

subsection \<open>writeParamsToBuffer\<close>

text \<open>
  \<open>layout.offsetMap[param.id] / 4\<close> (line 37). The quotient is an integer exactly when the
  byte offset is a multiple of 4. \<open>None\<close> stands for a number that is no integer:
  \<open>NaN\<close> when the id has no entry (\<open>undefined / 4\<close>), or a fraction; adding 1 or 2 to it
  gives no integer either.
\<close>

definition floatOffset_of :: "UniformLayout \<Rightarrow> string \<Rightarrow> int option" where
  "floatOffset_of layout pid =
     (case offsetMap layout pid of
        None \<Rightarrow> None
      | Some b \<Rightarrow> if b mod 4 = 0 then Some (b div 4) else None)"





subsection \<open>Vocabulary of the specification\<close>

text \<open>\<open>r\<close> is the smallest multiple of \<open>a\<close> that is at least \<open>n\<close>.\<close>

definition smallest_multiple_ge :: "int \<Rightarrow> int \<Rightarrow> int \<Rightarrow> bool" where
  "smallest_multiple_ge a n r \<longleftrightarrow> a dvd r \<and> n \<le> r \<and> (\<forall>k. a dvd k \<and> n \<le> k \<longrightarrow> r \<le> k)"

text \<open>The kinds of the specification, read off the type tag.\<close>

definition is_float :: "'v ShaderParam \<Rightarrow> bool" where
  "is_float param \<longleftrightarrow> param_type param = ''float''"

definition is_vec3 :: "'v ShaderParam \<Rightarrow> bool" where
  "is_vec3 param \<longleftrightarrow> param_type param = ''color'' \<or> param_type param = ''vec3''"


subsection \<open>Sample values\<close>

text \<open>
  A small instance of the value parameters, for evaluating the functions on concrete
  inputs: numbers with integer values (stored exactly by a \<open>Float32Array\<close>) and
  triples of them; storing anything that is no number leaves \<open>NaN\<close>.
\<close>

datatype js_value = Num int | Triple int int int | Undefined




definition float_param :: "string \<Rightarrow> int \<Rightarrow> js_value ShaderParam" where
  "float_param pid x = \<lparr>param_id = pid, param_type = ''float'', param_value = Num x\<rparr>"

definition color_param :: "string \<Rightarrow> int \<Rightarrow> int \<Rightarrow> int \<Rightarrow> js_value ShaderParam" where
  "color_param pid r g b = \<lparr>param_id = pid, param_type = ''color'', param_value = Triple r g b\<rparr>"



section \<open>Auxiliary facts\<close>

subsection \<open>Padding rounds up\<close>

lemma js_rem_nonneg: "0 \<le> c \<Longrightarrow> 0 < a \<Longrightarrow> js_rem c a = c mod a"
  by (cases "c = 0") (simp_all add: js_rem_def)

lemma js_rem_neg: "c < 0 \<Longrightarrow> 0 < a \<Longrightarrow> js_rem c a = - ((- c) mod a)"
  by (simp add: js_rem_def)

lemma padding_eq_mod:
  assumes "0 < a"
  shows "padding a c = (- c) mod a"
proof (cases "0 \<le> c")
  case True
  have "0 \<le> a - c mod a" using assms pos_mod_bound[of a c] by linarith
  then have "js_rem (a - c mod a) a = (a - c mod a) mod a"
    using assms by (rule js_rem_nonneg)
  also have "\<dots> = (- c) mod a"
    by (metis minus_mod_self2 mod_minus_eq uminus_add_conv_diff add.commute mod_add_self1)
  finally show ?thesis using True assms by (simp add: padding_def js_rem_nonneg)
next
  case False
  then have neg: "c < 0" by simp
  have "0 \<le> (- c) mod a" using assms by simp
  then have "0 \<le> a + (- c) mod a" using assms by linarith
  then have "js_rem (a + (- c) mod a) a = (a + (- c) mod a) mod a"
    using assms by (rule js_rem_nonneg)
  also have "\<dots> = (- c) mod a" by simp
  finally show ?thesis using neg assms by (simp add: padding_def js_rem_neg)
qed

lemma padding_nonneg: "0 < a \<Longrightarrow> 0 \<le> padding a c"
  by (simp add: padding_eq_mod)


lemma padding_dvd: 
  assumes "0 < a" shows "a dvd c + padding a c"
proof -
  have "c + (- c) mod a = - (a * ((- c) div a))"
    using mult_div_mod_eq[of a "- c"] by linarith
  then show ?thesis by (simp add: padding_eq_mod[OF assms])
qed



lemma smallest_multiple_ge_unique:
  "smallest_multiple_ge a n r \<Longrightarrow> smallest_multiple_ge a n r' \<Longrightarrow> r = r'"
  by (auto simp add: smallest_multiple_ge_def intro: antisym)

subsection \<open>The loop of calculateUniformLayout\<close>

lemma param_alignment_pos: "0 < param_alignment p"
  by (simp add: param_alignment_def)

lemma param_size_eq_alignment: "param_size p = param_alignment p"
  by (simp add: param_alignment_def param_size_def)

lemma length_assigned_offsets: "length (assigned_offsets c ps) = length ps"
  by (induction ps arbitrary: c) (simp_all add: Let_def)

lemma assigned_offsets_ge: "i < length ps \<Longrightarrow> c \<le> assigned_offsets c ps ! i"
proof (induction ps arbitrary: c i)
  case Nil
  then show ?case by simp
next
  case (Cons p ps)
  have pad: "0 \<le> padding (param_alignment p) c"
    by (rule padding_nonneg[OF param_alignment_pos])
  show ?case
  proof (cases i)
    case 0
    then show ?thesis using pad by (simp add: Let_def)
  next
    case (Suc k)
    then have "k < length ps" using Cons.prems by simp
    from Cons.IH[OF this, of "c + padding (param_alignment p) c + param_size p"]
    show ?thesis using Suc pad param_alignment_pos[of p]
      by (simp add: Let_def param_size_eq_alignment)
  qed
qed

lemma assigned_offsets_first:
  "assigned_offsets c (p # ps) ! 0 = c + padding (param_alignment p) c"
  by (simp add: Let_def)



lemma foldl_layout_step:
  "foldl layout_step (c, m) ps =
     (final_cursor c ps, m ++ map_of (rev (zip (map param_id ps) (assigned_offsets c ps))))"
proof (induction ps arbitrary: c m)
  case Nil
  then show ?case by simp
next
  case (Cons p ps)
  let ?o = "c + padding (param_alignment p) c"
  have "foldl layout_step (c, m) (p # ps) =
        foldl layout_step (?o + param_size p, m(param_id p \<mapsto> ?o)) ps"
    by (simp add: layout_step_def Let_def)
  also have "\<dots> = (final_cursor (?o + param_size p) ps,
      m(param_id p \<mapsto> ?o) ++
        map_of (rev (zip (map param_id ps) (assigned_offsets (?o + param_size p) ps))))"
    by (rule Cons.IH)
  finally show ?case by (simp add: Let_def map_add_upd_left)
qed

subsection \<open>The returned layout\<close>

lemma calc_size:
  "layout_size (calculateUniformLayout ps b) = final_cursor b ps + padding 16 (final_cursor b ps)"
  by (simp add: calculateUniformLayout_def foldl_layout_step Let_def)

lemma calc_map:
  "offsetMap (calculateUniformLayout ps b) =
     map_of (rev (zip (map param_id ps) (assigned_offsets b ps)))"
  by (simp add: calculateUniformLayout_def foldl_layout_step Let_def)




lemma offsetMap_range:
  assumes "offsetMap (calculateUniformLayout ps b) pid = Some off"
  shows "\<exists>i<length ps. param_id (ps ! i) = pid \<and> assigned_offsets b ps ! i = off"
proof -
  let ?zs = "zip (map param_id ps) (assigned_offsets b ps)"
  have "(pid, off) \<in> set (rev ?zs)"
    using assms by (simp only: calc_map) (rule map_of_SomeD)
  then have "(pid, off) \<in> set ?zs" by simp
  then obtain i where "i < length ?zs" "?zs ! i = (pid, off)"
    by (auto simp add: in_set_conv_nth)
  then show ?thesis by (auto simp add: length_assigned_offsets)
qed


lemma assigned_offsets_aligned:
  "i < length ps \<Longrightarrow> param_alignment (ps ! i) dvd assigned_offsets c ps ! i"
proof (induction ps arbitrary: c i)
  case Nil
  then show ?case by simp
next
  case (Cons p ps)
  show ?case
  proof (cases i)
    case 0
    then show ?thesis using padding_dvd[OF param_alignment_pos, of p c] by (simp add: Let_def)
  next
    case (Suc k)
    then have "k < length ps" using Cons.prems by simp
    from Cons.IH[OF this] show ?thesis using Suc by (simp add: Let_def)
  qed
qed

lemma final_cursor_ge: "c \<le> final_cursor c ps"
proof (induction ps arbitrary: c)
  case Nil
  then show ?case by simp
next
  case (Cons p ps)
  have "c \<le> c + padding (param_alignment p) c + param_size p"
    using padding_nonneg[OF param_alignment_pos, of p c] param_alignment_pos[of p]
    by (simp add: param_size_eq_alignment)
  also have "\<dots> \<le> final_cursor (c + padding (param_alignment p) c + param_size p) ps"
    by (rule Cons.IH)
  finally show ?case by (simp add: Let_def)
qed

lemma assigned_offsets_slot_end:
  "i < length ps \<Longrightarrow> assigned_offsets c ps ! i + param_size (ps ! i) \<le> final_cursor c ps"
proof (induction ps arbitrary: c i)
  case Nil
  then show ?case by simp
next
  case (Cons p ps)
  show ?case
  proof (cases i)
    case 0
    then show ?thesis
      using final_cursor_ge[of "c + padding (param_alignment p) c + param_size p" ps]
      by (simp add: Let_def)
  next
    case (Suc k)
    then have "k < length ps" using Cons.prems by simp
    from Cons.IH[OF this] show ?thesis using Suc by (simp add: Let_def)
  qed
qed

lemma assigned_offsets_disjoint:
  "i < j \<Longrightarrow> j < length ps \<Longrightarrow>
   assigned_offsets c ps ! i + param_size (ps ! i) \<le> assigned_offsets c ps ! j"
proof (induction ps arbitrary: c i j)
  case Nil
  then show ?case by simp
next
  case (Cons p ps)
  from Cons.prems obtain j' where j: "j = Suc j'" "j' < length ps" by (cases j) auto
  show ?case
  proof (cases i)
    case 0
    then show ?thesis
      using assigned_offsets_ge[OF j(2), of "c + padding (param_alignment p) c + param_size p"] j
      by (simp add: Let_def)
  next
    case (Suc k)
    then have "k < j'" using Cons.prems j by simp
    from Cons.IH[OF this j(2)] show ?thesis using Suc j by (simp add: Let_def)
  qed
qed

lemma layout_size_ge_cursor: "final_cursor b ps \<le> layout_size (calculateUniformLayout ps b)"
  using padding_nonneg[of 16 "final_cursor b ps"] by (simp add: calc_size)

lemma layout_size_dvd: "16 dvd layout_size (calculateUniformLayout ps b)"
  using padding_dvd[of 16 "final_cursor b ps"] by (simp add: calc_size)

subsection \<open>Lists of one alignment\<close>






lemma assigned_offsets_rename:
  "assigned_offsets c (map (\<lambda>p. p\<lparr>param_id := f p\<rparr>) ps) = assigned_offsets c ps"
  by (induction ps arbitrary: c) (simp_all add: Let_def param_alignment_def param_size_def)


subsection \<open>Stores into the buffer\<close>











subsection \<open>Words of a parameter lie in its slot\<close>



section \<open>Layout computation\<close>

lemmas layout_eval =
  calculateUniformLayout_def layout_step_def padding_def js_rem_def
  param_alignment_def param_size_def Let_def



text \<open>
  Claim C2. Every offset that the scan records for a Float parameter is a multiple of 4 and
  the parameter has the 4 bytes from it; every offset recorded for a ColorOrVec3 parameter
  is a multiple of 16 and the parameter has the 16 bytes from it: the bytes of a parameter
  end before the offset of every later one and within the returned size. Hence every offset
  in the returned map is a multiple of 4, whatever \<open>baseOffset\<close> is, and the division
  by 4 in \<open>writeParamsToBuffer\<close> is exact.
\<close>

theorem offsets_aligned:
  fixes params :: "'v ShaderParam list"
  shows
  "(\<forall>i<length params.
      (is_float (params ! i) \<longrightarrow>
         4 dvd assigned_offsets baseOffset params ! i \<and> param_size (params ! i) = 4) \<and>
      (is_vec3 (params ! i) \<longrightarrow>
         16 dvd assigned_offsets baseOffset params ! i \<and> param_size (params ! i) = 16) \<and>
      (\<forall>j. i < j \<and> j < length params \<longrightarrow>
         assigned_offsets baseOffset params ! i + param_size (params ! i)
           \<le> assigned_offsets baseOffset params ! j) \<and>
      assigned_offsets baseOffset params ! i + param_size (params ! i)
        \<le> layout_size (calculateUniformLayout params baseOffset)) \<and>
   (\<forall>pid off. offsetMap (calculateUniformLayout params baseOffset) pid = Some off \<longrightarrow>
      4 dvd off \<and> 4 * (off div 4) = off \<and>
      floatOffset_of (calculateUniformLayout params baseOffset) pid = Some (off div 4))"
proof -
  let ?offs = "assigned_offsets baseOffset params"
  let ?L = "calculateUniformLayout params baseOffset"
  have four: "4 dvd ?offs ! i" if "i < length params" for i
  proof -
    have "param_alignment (params ! i) dvd ?offs ! i"
      using that by (rule assigned_offsets_aligned)
    moreover have "(4::int) dvd param_alignment (params ! i)"
      by (simp add: param_alignment_def)
    ultimately show ?thesis by (rule dvd_trans[rotated])
  qed
  have fl: "4 dvd ?offs ! i \<and> param_size (params ! i) = 4"
    if "i < length params" "is_float (params ! i)" for i
    using four[OF that(1)] that(2) by (simp add: is_float_def param_size_def)
  have vc: "16 dvd ?offs ! i \<and> param_size (params ! i) = 16"
    if "i < length params" "is_vec3 (params ! i)" for i
    using assigned_offsets_aligned[OF that(1), of baseOffset] that(2)
    by (simp add: is_vec3_def param_size_def param_alignment_def)
  have dj: "?offs ! i + param_size (params ! i) \<le> ?offs ! j"
    if "i < j" "j < length params" for i j
    using that by (rule assigned_offsets_disjoint)
  have en: "?offs ! i + param_size (params ! i) \<le> layout_size ?L" if "i < length params" for i
    using assigned_offsets_slot_end[OF that, of baseOffset] layout_size_ge_cursor[of baseOffset params]
    by linarith
  have mp: "4 dvd off \<and> 4 * (off div 4) = off \<and> floatOffset_of ?L pid = Some (off div 4)"
    if "offsetMap ?L pid = Some off" for pid off
  proof -
    from offsetMap_range[OF that] obtain i where "i < length params" "?offs ! i = off"
      by blast
    then have "4 dvd off" using four by blast
    then show ?thesis using that by (auto simp add: floatOffset_of_def)
  qed
  show ?thesis using fl vc dj en mp by blast
qed

theorem offsets_aligned_witness:
  "(1::nat) < length [float_param ''a'' 1, color_param ''c'' 1 2 3] \<and>
   is_vec3 ([float_param ''a'' 1, color_param ''c'' 1 2 3] ! 1) \<and>
   offsetMap (calculateUniformLayout [float_param ''a'' 1, color_param ''c'' 1 2 3] 45) ''a''
     = Some 48 \<and>
   floatOffset_of (calculateUniformLayout [float_param ''a'' 1, color_param ''c'' 1 2 3] 45) ''a''
     = Some (48 div 4) \<and>
   16 dvd assigned_offsets 45 [float_param ''a'' 1, color_param ''c'' 1 2 3] ! 1"
proof -
  let ?ps = "[float_param ''a'' 1, color_param ''c'' 1 2 3]"
  have h1: "(1::nat) < length ?ps" by simp
  have h2: "is_vec3 (?ps ! 1)" by (simp add: color_param_def is_vec3_def)
  have h3: "offsetMap (calculateUniformLayout ?ps 45) ''a'' = Some 48"
    by (simp add: float_param_def color_param_def layout_eval)
  have "16 dvd assigned_offsets 45 ?ps ! 1"
    using offsets_aligned [of ?ps 45] h1 h2 by blast
  moreover have "floatOffset_of (calculateUniformLayout ?ps 45) ''a'' = Some (48 div 4)"
    using offsets_aligned [of ?ps 45] h3 by blast
  ultimately show ?thesis using h1 h2 h3 by blast
qed

text \<open>
  Claim C3, as amended. For the empty parameter list and \<open>baseOffset = 48\<close> the returned
  size is 48, not 64: the final padding \<open>(16 - 48 % 16) % 16\<close> is 0, because 48 is a
  multiple of 16 already. A base that is no multiple of 16, such as 49, is padded up to 64.
\<close>

theorem empty_layout_at_48:
  "layout_size (calculateUniformLayout ([] :: js_value ShaderParam list) 48) = 48 \<and>
   layout_size (calculateUniformLayout ([] :: js_value ShaderParam list) 49) = 64"
  by (simp add: layout_eval)

theorem empty_layout_at_48_counterexample:
  "layout_size (calculateUniformLayout ([] :: js_value ShaderParam list) 48) \<noteq> 64"
  by (simp add: layout_eval)





section \<open>Value serialization\<close>









section \<open>Inputs outside the contract\<close>





end
